theory Spec2Isabelle
  imports Main "HOL-Library.Word"
begin

unbundle bit_operations_syntax

section \<open>Constants of the packages constants, registers, cflags, opcodes and traps\<close>

text \<open>
  The machine's unit is Go's \<open>uint16\<close>, modelled as \<open>16 word\<close>: \<open>+\<close> wraps modulo
  \<open>2 ^ 16\<close>, \<open>drop_bit\<close> is Go's \<open>>>\<close> on an unsigned value and \<open>push_bit\<close> is
  \<open><<\<close> truncated to 16 bits. A byte is \<open>8 word\<close>.
\<close>

named_theorems lc3_consts \<open>unfolding the named constants of the source\<close>

definition MemoryMax :: nat where
  "MemoryMax = 2 ^ 16"

definition RR0 :: "16 word" where [lc3_consts]: "RR0 = 0"
definition RR1 :: "16 word" where [lc3_consts]: "RR1 = 1"
definition RR2 :: "16 word" where [lc3_consts]: "RR2 = 2"
definition RR3 :: "16 word" where [lc3_consts]: "RR3 = 3"
definition RR4 :: "16 word" where [lc3_consts]: "RR4 = 4"
definition RR5 :: "16 word" where [lc3_consts]: "RR5 = 5"
definition RR6 :: "16 word" where [lc3_consts]: "RR6 = 6"
definition RR7 :: "16 word" where [lc3_consts]: "RR7 = 7"
definition RPC :: "16 word" where [lc3_consts]: "RPC = 8"
definition RCOND :: "16 word" where [lc3_consts]: "RCOND = 9"
definition RCOUNT :: "16 word" where [lc3_consts]: "RCOUNT = 10"

definition MRKBSR :: "16 word" where [lc3_consts]: "MRKBSR = 0xFE00"
definition MRKBDR :: "16 word" where [lc3_consts]: "MRKBDR = 0xFE02"

definition FLPOS :: "16 word" where [lc3_consts]: "FLPOS = push_bit 0 1"
definition FLZRO :: "16 word" where [lc3_consts]: "FLZRO = push_bit 1 1"
definition FLNEG :: "16 word" where [lc3_consts]: "FLNEG = push_bit 2 1"

definition OPBR :: "16 word" where [lc3_consts]: "OPBR = 0"
definition OPADD :: "16 word" where [lc3_consts]: "OPADD = 1"
definition OPLD :: "16 word" where [lc3_consts]: "OPLD = 2"
definition OPST :: "16 word" where [lc3_consts]: "OPST = 3"
definition OPJSR :: "16 word" where [lc3_consts]: "OPJSR = 4"
definition OPAND :: "16 word" where [lc3_consts]: "OPAND = 5"
definition OPLDR :: "16 word" where [lc3_consts]: "OPLDR = 6"
definition OPSTR :: "16 word" where [lc3_consts]: "OPSTR = 7"
definition OPRTI :: "16 word" where [lc3_consts]: "OPRTI = 8"
definition OPNOT :: "16 word" where [lc3_consts]: "OPNOT = 9"
definition OPLDI :: "16 word" where [lc3_consts]: "OPLDI = 10"
definition OPSTI :: "16 word" where [lc3_consts]: "OPSTI = 11"
definition OPJMP :: "16 word" where [lc3_consts]: "OPJMP = 12"
definition OPRES :: "16 word" where [lc3_consts]: "OPRES = 13"
definition OPLEA :: "16 word" where [lc3_consts]: "OPLEA = 14"
definition OPTRAP :: "16 word" where [lc3_consts]: "OPTRAP = 15"

definition GETC :: "16 word" where [lc3_consts]: "GETC = 0x20"
definition OUT :: "16 word" where [lc3_consts]: "OUT = 0x21"
definition PUTS :: "16 word" where [lc3_consts]: "PUTS = 0x22"
definition IN :: "16 word" where [lc3_consts]: "IN = 0x23"
definition PUTSP :: "16 word" where [lc3_consts]: "PUTSP = 0x24"
definition HALT :: "16 word" where [lc3_consts]: "HALT = 0x25"

section \<open>The CPU and its environment\<close>

text \<open>
  The struct \<open>cpu\<close> of cpu.go has four fields. \<open>memory\<close> is an array of
  \<open>MemoryMax = 2 ^ 16\<close> words indexed by a \<open>uint16\<close>, so every index is in range and
  the array is a total function of the address. \<open>registers\<close> is an array of
  \<open>RCOUNT = 10\<close> words; the source indexes it only with the constants above and with
  three-bit fields of the instruction (see \<open>reg_field_in_range\<close> below), so no index is
  ever out of range and the array is modelled as a function of the index as well.
\<close>

record cpu =
  memory :: "16 word \<Rightarrow> 16 word"
  registers :: "16 word \<Rightarrow> 16 word"
  op :: "16 word"
  instr :: "16 word"

text \<open>
  The handlers of the source mutate the CPU in place and return an \<open>error\<close>; they also
  read \<open>os.Stdin\<close>, write \<open>os.Stdout\<close> (and, in \<open>handleIn\<close>, \<open>os.Stdin\<close>) and call
  the \<open>cancel\<close> closure, which assigns \<open>false\<close> to the local variable \<open>running\<close> of
  \<open>Loop\<close>. All of that is threaded through the handlers as a state, which extends the
  CPU by

  \<^item> \<open>running\<close>: the variable captured by \<open>cancel\<close>;
  \<^item> \<open>stdin_bytes\<close> and \<open>reads\<close>: every read of the source is
    \<open>bufio.NewReader(os.Stdin).ReadByte()\<close> on a fresh reader, which is dropped afterwards
    with whatever it buffered. \<open>stdin_bytes k\<close> is what the \<open>k\<close>-th such call returns:
    \<open>Some b\<close> for the byte \<open>b\<close>, \<open>None\<close> for a failure (end of file or another
    error); \<open>reads\<close> counts the calls made so far;
  \<^item> \<open>write_ok\<close> and \<open>writes\<close>: \<open>write_ok k\<close> tells whether the \<open>k\<close>-th write on a
    file succeeds (a write is taken to transfer all of its bytes or none);
    \<open>writes\<close> counts the writes made so far;
  \<^item> \<open>stdout\<close>: the bytes written to \<open>os.Stdout\<close> so far, oldest first;
  \<^item> \<open>stdin_echo\<close>: the bytes written to \<open>os.Stdin\<close> so far.
\<close>

record state = cpu +
  running :: bool
  stdin_bytes :: "nat \<Rightarrow> 8 word option"
  reads :: nat
  write_ok :: "nat \<Rightarrow> bool"
  writes :: nat
  stdout :: "8 word list"
  stdin_echo :: "8 word list"

datatype error =
  ReadError
  | WriteError
  | UnrecognizedOperation "16 word"
  | UnhandledOpcode "16 word"
  | UnrecognizedTrap "16 word"

datatype osfile = Stdin | Stdout

subsection \<open>The calls into Go's standard library\<close>

text \<open>\<open>bufio.NewReader(os.Stdin).ReadByte()\<close>: the next entry of \<open>stdin_bytes\<close>.\<close>

definition ReadByte :: "state \<Rightarrow> (8 word \<times> error option) \<times> state" where
  "ReadByte c =
     (case stdin_bytes c (reads c) of
        None \<Rightarrow> ((0, Some ReadError), c\<lparr>reads := Suc (reads c)\<rparr>)
      | Some b \<Rightarrow> ((b, None), c\<lparr>reads := Suc (reads c)\<rparr>))"

text \<open>\<open>f.Write(p)\<close> on \<open>os.Stdout\<close> or \<open>os.Stdin\<close>.\<close>

definition Write :: "osfile \<Rightarrow> 8 word list \<Rightarrow> state \<Rightarrow> error option \<times> state" where
  "Write f p c =
     (if write_ok c (writes c)
      then (None, (case f of
                     Stdout \<Rightarrow> c\<lparr>writes := Suc (writes c), stdout := stdout c @ p\<rparr>
                   | Stdin \<Rightarrow> c\<lparr>writes := Suc (writes c), stdin_echo := stdin_echo c @ p\<rparr>))
      else (Some WriteError, c\<lparr>writes := Suc (writes c)\<rparr>))"

text \<open>
  \<open>bufio.Writer\<close> with its default buffer of 4096 bytes: \<open>buf\<close> is the buffered data
  and \<open>err\<close> the sticky error of the writer. \<open>Flush\<close> returns the sticky error if
  there is one, does nothing on an empty buffer, and otherwise writes the buffer to the
  file. \<open>WriteByte\<close> flushes first when the buffer is full.
\<close>

record writer =
  wr :: osfile
  buf :: "8 word list"
  err :: "error option"

definition NewWriter :: "osfile \<Rightarrow> writer" where
  "NewWriter f = \<lparr>wr = f, buf = [], err = None\<rparr>"

definition Flush :: "writer \<Rightarrow> state \<Rightarrow> error option \<times> writer \<times> state" where
  "Flush b c =
     (if err b \<noteq> None then (err b, b, c)
      else if buf b = [] then (None, b, c)
      else (case Write (wr b) (buf b) c of
              (Some e, c') \<Rightarrow> (Some e, b\<lparr>err := Some e\<rparr>, c')
            | (None, c') \<Rightarrow> (None, b\<lparr>buf := []\<rparr>, c')))"

definition WriteByte :: "writer \<Rightarrow> 8 word \<Rightarrow> state \<Rightarrow> error option \<times> writer \<times> state" where
  "WriteByte b x c =
     (if err b \<noteq> None then (err b, b, c)
      else if 4096 \<le> length (buf b)
      then (case Flush b c of
              (Some e, b', c') \<Rightarrow> (err b', b', c')
            | (None, b', c') \<Rightarrow> (None, b'\<lparr>buf := buf b' @ [x]\<rparr>, c'))
      else (None, b\<lparr>buf := buf b @ [x]\<rparr>, c))"

text \<open>
  The verb \<open>%c\<close> of package fmt formats an integer as the Unicode code point of that
  value, encoded in UTF-8 (\<open>utf8.AppendRune\<close>): one byte below \<open>0x80\<close>, two bytes below
  \<open>0x800\<close>, the encoding of \<open>U+FFFD\<close> for a surrogate (\<open>0xD800\<close> to \<open>0xDFFF\<close>),
  three bytes for the rest of the 16-bit range.
\<close>

definition AppendRune :: "16 word \<Rightarrow> 8 word list" where
  "AppendRune r =
     (if r \<le> 0x7F then [ucast r]
      else if r \<le> 0x7FF then [0xC0 OR ucast (drop_bit 6 r), 0x80 OR (ucast r AND 0x3F)]
      else if 0xD800 \<le> r \<and> r \<le> 0xDFFF then [0xEF, 0xBF, 0xBD]
      else [0xE0 OR ucast (drop_bit 12 r),
            0x80 OR (ucast (drop_bit 6 r) AND 0x3F),
            0x80 OR (ucast r AND 0x3F)])"

text \<open>
  \<open>fmt.Printf("%c", char)\<close> and \<open>fmt.Print(s)\<close> hand the formatted bytes to
  \<open>os.Stdout\<close> in one write; the source drops the error they return.
\<close>

definition Printf_c :: "16 word \<Rightarrow> state \<Rightarrow> state" where
  "Printf_c char c = snd (Write Stdout (AppendRune char) c)"

definition Print :: "string \<Rightarrow> state \<Rightarrow> state" where
  "Print s c = snd (Write Stdout (map (\<lambda>ch. of_nat (of_char ch)) s) c)"

section \<open>Memory, flags and sign extension\<close>

definition NewCPU :: "cpu" where
  "NewCPU =
     \<lparr>memory = (\<lambda>a. 0),
      registers = ((\<lambda>r. 0)(RCOND := FLZRO))(RPC := 0x3000),
      op = 0,
      instr = 0\<rparr>"

definition incrProgramCounter :: "state \<Rightarrow> 16 word \<times> state" where
  "incrProgramCounter c =
     (let pc = registers c RPC;
          pc = pc + 1
      in (pc, c\<lparr>registers := (registers c)(RPC := pc)\<rparr>))"

definition memoryRead :: "state \<Rightarrow> 16 word \<Rightarrow> (16 word \<times> error option) \<times> state" where
  "memoryRead c address =
     (if address = MRKBSR
      then (case ReadByte c of
              ((key, Some e), c1) \<Rightarrow> ((0, Some e), c1)
            | ((key, None), c1) \<Rightarrow>
                (let c2 = (if (ucast key :: 16 word) \<noteq> 0
                           then c1\<lparr>memory := ((memory c1)(MRKBSR := push_bit 15 1))
                                                 (MRKBDR := ucast key)\<rparr>
                           else c1\<lparr>memory := (memory c1)(MRKBSR := 0)\<rparr>)
                 in ((memory c2 address, None), c2)))
      else ((memory c address, None), c))"

definition memoryWrite :: "state \<Rightarrow> 16 word \<Rightarrow> 16 word \<Rightarrow> error option \<times> state" where
  "memoryWrite c address val = (None, c\<lparr>memory := (memory c)(address := val)\<rparr>)"

definition updateFlags :: "state \<Rightarrow> 16 word \<Rightarrow> state" where
  "updateFlags c r =
     (if registers c r = 0 then c\<lparr>registers := (registers c)(RCOND := FLZRO)\<rparr>
      else if drop_bit 15 (registers c r) \<noteq> 0
      then c\<lparr>registers := (registers c)(RCOND := FLNEG)\<rparr>
      else c\<lparr>registers := (registers c)(RCOND := FLPOS)\<rparr>)"

text \<open>
  \<open>bitCount - 1\<close> is a \<open>uint16\<close> subtraction, and the constant \<open>0xFFFF\<close> takes the
  type of \<open>x\<close>, so the shifted mask is truncated to 16 bits.
\<close>

definition signExtend :: "16 word \<Rightarrow> 16 word \<Rightarrow> 16 word" where
  "signExtend x bitCount =
     (if drop_bit (unat (bitCount - 1)) x AND 1 \<noteq> 0
      then x OR push_bit (unat bitCount) 0xFFFF
      else x)"

section \<open>The handlers of the opcode table\<close>

text \<open>
  A handler \<open>func(cpu *cpu, cancel func()) error\<close> is a function from the state to
  the returned error (\<open>None\<close> is \<open>nil\<close>) and the state it leaves behind; the state is
  there after an error too, as the mutations made before the error stay.
\<close>

definition unhandledOpcode :: "state \<Rightarrow> error option \<times> state" where
  "unhandledOpcode c = (Some (UnhandledOpcode (op c)), c)"

definition handleAdd :: "state \<Rightarrow> error option \<times> state" where
  "handleAdd c =
     (let r0 = drop_bit 9 (instr c) AND 0x7;
          r1 = drop_bit 6 (instr c) AND 0x7;
          immFlag = drop_bit 5 (instr c) AND 0x1;
          c1 = (if immFlag = 1
                then (let imm5 = signExtend (instr c AND 0x1F) 5
                      in c\<lparr>registers := (registers c)(r0 := registers c r1 + imm5)\<rparr>)
                else (let r2 = instr c AND 0x7
                      in c\<lparr>registers := (registers c)(r0 := registers c r1 + registers c r2)\<rparr>))
      in (None, updateFlags c1 r0))"

definition handleAnd :: "state \<Rightarrow> error option \<times> state" where
  "handleAnd c =
     (let r0 = drop_bit 9 (instr c) AND 0x7;
          r1 = drop_bit 6 (instr c) AND 0x7;
          immFlag = drop_bit 5 (instr c) AND 0x1;
          c1 = (if immFlag = 1
                then (let imm5 = signExtend (instr c AND 0x1F) 5
                      in c\<lparr>registers := (registers c)(r0 := registers c r1 AND imm5)\<rparr>)
                else (let r2 = instr c AND 0x7
                      in c\<lparr>registers := (registers c)(r0 := registers c r1 AND registers c r2)\<rparr>))
      in (None, updateFlags c1 r0))"

definition handleBr :: "state \<Rightarrow> error option \<times> state" where
  "handleBr c =
     (let condFlag = drop_bit 9 (instr c) AND 0x7;
          pcOffset = signExtend (instr c AND 0x1FF) 9
      in if condFlag AND registers c RCOND \<noteq> 0
         then (None, c\<lparr>registers := (registers c)(RPC := registers c RPC + pcOffset)\<rparr>)
         else (None, c))"

definition handleJmp :: "state \<Rightarrow> error option \<times> state" where
  "handleJmp c =
     (let r1 = drop_bit 6 (instr c) AND 0x7
      in (None, c\<lparr>registers := (registers c)(RPC := registers c r1)\<rparr>))"

definition handleJumpSubroutine :: "state \<Rightarrow> error option \<times> state" where
  "handleJumpSubroutine c =
     (let c1 = c\<lparr>registers := (registers c)(RR7 := registers c RPC)\<rparr>;
          bit11 = drop_bit 11 (instr c1) AND 0x1
      in if bit11 = 0
         then (let baseR = drop_bit 6 (instr c1) AND 0x7
               in (None, c1\<lparr>registers := (registers c1)(RPC := registers c1 baseR)\<rparr>))
         else (let pcOffset = signExtend (instr c1 AND 0x7FF) 11
               in (None, c1\<lparr>registers := (registers c1)(RPC := registers c1 RPC + pcOffset)\<rparr>)))"

definition handleLoad :: "state \<Rightarrow> error option \<times> state" where
  "handleLoad c =
     (let dr = drop_bit 9 (instr c) AND 0x7;
          pcOffset = signExtend (instr c AND 0x1FF) 9
      in case memoryRead c (registers c RPC + pcOffset) of
           ((data, Some e), c1) \<Rightarrow> (Some e, c1)
         | ((data, None), c1) \<Rightarrow>
             (None, updateFlags (c1\<lparr>registers := (registers c1)(dr := data)\<rparr>) dr))"

definition handleLoadR :: "state \<Rightarrow> error option \<times> state" where
  "handleLoadR c =
     (let dr = drop_bit 9 (instr c) AND 0x7;
          br = drop_bit 6 (instr c) AND 0x7;
          offset = signExtend (instr c AND 0x3F) 6
      in case memoryRead c (registers c br + offset) of
           ((k, Some e), c1) \<Rightarrow> (Some e, c1)
         | ((k, None), c1) \<Rightarrow>
             (None, updateFlags (c1\<lparr>registers := (registers c1)(dr := k)\<rparr>) dr))"

definition handleStore :: "state \<Rightarrow> error option \<times> state" where
  "handleStore c =
     (let sr = drop_bit 9 (instr c) AND 0x7;
          pcOffset = signExtend (instr c AND 0x1FF) 9;
          loc = registers c RPC + pcOffset
      in memoryWrite c loc (registers c sr))"

definition handleStoreIndirect :: "state \<Rightarrow> error option \<times> state" where
  "handleStoreIndirect c =
     (let pc = registers c RPC;
          pcOffset = signExtend (instr c AND 0x1FF) 9
      in case memoryRead c (pc + pcOffset) of
           ((addr, Some e), c1) \<Rightarrow> (Some e, c1)
         | ((addr, None), c1) \<Rightarrow>
             (let sr = drop_bit 9 (instr c1) AND 0x7
              in memoryWrite c1 addr (registers c1 sr)))"

definition handleStr :: "state \<Rightarrow> error option \<times> state" where
  "handleStr c =
     (let sr = drop_bit 9 (instr c) AND 0x7;
          baseR = drop_bit 6 (instr c) AND 0x7;
          offset = signExtend (instr c AND 0x3F) 6
      in memoryWrite c (registers c baseR + offset) (registers c sr))"

definition handleLoadEffectiveAddress :: "state \<Rightarrow> error option \<times> state" where
  "handleLoadEffectiveAddress c =
     (let dr = drop_bit 9 (instr c) AND 0x7;
          pcOffset = signExtend (instr c AND 0x1FF) 9;
          c1 = c\<lparr>registers := (registers c)(dr := registers c RPC + pcOffset)\<rparr>
      in (None, updateFlags c1 dr))"

definition handleNot :: "state \<Rightarrow> error option \<times> state" where
  "handleNot c =
     (let dr = drop_bit 9 (instr c) AND 0x7;
          sr = drop_bit 6 (instr c) AND 0x7;
          c1 = c\<lparr>registers := (registers c)(dr := NOT (registers c sr))\<rparr>
      in (None, updateFlags c1 dr))"

definition handleLoadIndirect :: "state \<Rightarrow> error option \<times> state" where
  "handleLoadIndirect c =
     (let r0 = drop_bit 9 (instr c) AND 0x7;
          pcOffset = signExtend (instr c AND 0x1FF) 9
      in case memoryRead c (registers c RPC + pcOffset) of
           ((addr, Some e), c1) \<Rightarrow> (Some e, c1)
         | ((addr, None), c1) \<Rightarrow>
             (case memoryRead c1 addr of
                ((val, Some e), c2) \<Rightarrow> (Some e, c2)
              | ((val, None), c2) \<Rightarrow>
                  (None, updateFlags (c2\<lparr>registers := (registers c2)(r0 := val)\<rparr>) r0)))"

section \<open>The trap handlers\<close>

text \<open>
  The loops of \<open>handlePuts\<close> and \<open>handlePutsP\<close> have no bound in the source. They
  are modelled with fuel: the first argument bounds the number of iterations, and
  \<open>None\<close> says that the bound was reached before the loop returned. The loop returns
  when some amount of fuel gives \<open>Some\<close>, and runs forever when every amount gives
  \<open>None\<close>.
\<close>

definition handleGetC :: "state \<Rightarrow> error option \<times> state" where
  "handleGetC c =
     (case ReadByte c of
        ((byt, Some e), c1) \<Rightarrow> (Some e, c1)
      | ((byt, None), c1) \<Rightarrow>
          (None, updateFlags (c1\<lparr>registers := (registers c1)(RR0 := ucast byt)\<rparr>) RR0))"

fun putsLoop :: "nat \<Rightarrow> state \<Rightarrow> 16 word \<Rightarrow> (error option \<times> state) option" where
  "putsLoop 0 c addr = None"
| "putsLoop (Suc n) c addr =
     (case memoryRead c addr of
        ((char, Some e), c1) \<Rightarrow> Some (Some e, c1)
      | ((char, None), c1) \<Rightarrow>
          if char = 0 then Some (None, c1)
          else putsLoop n (Printf_c char c1) (addr + 1))"

definition handlePuts :: "nat \<Rightarrow> state \<Rightarrow> (error option \<times> state) option" where
  "handlePuts n c = putsLoop n c (registers c RR0)"

definition handleOut :: "state \<Rightarrow> error option \<times> state" where
  "handleOut c =
     (let writer = NewWriter Stdout;
          elem = (ucast (registers c RR0) :: 8 word)
      in case WriteByte writer elem c of
           (Some e, writer1, c1) \<Rightarrow> (Some e, c1)
         | (None, writer1, c1) \<Rightarrow> (case Flush writer1 c1 of (e, writer2, c2) \<Rightarrow> (e, c2)))"

definition handleIn :: "state \<Rightarrow> error option \<times> state" where
  "handleIn c =
     (let c0 = Print ''Enter a character: '' c;
          writer = NewWriter Stdin
      in case ReadByte c0 of
           ((byt, Some e), c1) \<Rightarrow> (Some e, c1)
         | ((byt, None), c1) \<Rightarrow>
             (case WriteByte writer byt c1 of
                (Some e, writer1, c2) \<Rightarrow> (Some e, c2)
              | (None, writer1, c2) \<Rightarrow>
                  (let c3 = updateFlags (c2\<lparr>registers := (registers c2)(RR0 := ucast byt)\<rparr>) RR0
                   in case Flush writer1 c3 of (e, writer2, c4) \<Rightarrow> (e, c4))))"

fun putsPLoop ::
  "nat \<Rightarrow> writer \<Rightarrow> state \<Rightarrow> 16 word \<Rightarrow> (error option \<times> state) option" where
  "putsPLoop 0 writer c addr = None"
| "putsPLoop (Suc n) writer c addr =
     (case memoryRead c addr of
        ((char, Some e), c1) \<Rightarrow> Some (Some e, c1)
      | ((char, None), c1) \<Rightarrow>
          if char = 0
          then (case Flush writer c1 of (e, writer1, c2) \<Rightarrow> Some (e, c2))
          else (case WriteByte writer (ucast (char AND 0xFF)) c1 of
                  (Some e, writer1, c2) \<Rightarrow> Some (Some e, c2)
                | (None, writer1, c2) \<Rightarrow>
                    (let symb = drop_bit 8 char
                     in if symb \<noteq> 0
                        then (case WriteByte writer1 (ucast symb) c2 of
                                (Some e, writer2, c3) \<Rightarrow> Some (Some e, c3)
                              | (None, writer2, c3) \<Rightarrow> putsPLoop n writer2 c3 (addr + 1))
                        else putsPLoop n writer1 c2 (addr + 1))))"

definition handlePutsP :: "nat \<Rightarrow> state \<Rightarrow> (error option \<times> state) option" where
  "handlePutsP n c = putsPLoop n (NewWriter Stdout) c (registers c RR0)"

definition handleHalt :: "state \<Rightarrow> error option \<times> state" where
  "handleHalt c = (None, c\<lparr>running := False\<rparr>)"

section \<open>The dispatch tables and the execution loop\<close>

type_synonym handler = "nat \<Rightarrow> state \<Rightarrow> (error option \<times> state) option"

text \<open>A handler without a loop returns whatever the fuel.\<close>

definition returns :: "(state \<Rightarrow> error option \<times> state) \<Rightarrow> handler" where
  "returns h n c = Some (h c)"

definition trapTable :: "16 word \<rightharpoonup> handler" where
  "trapTable =
     [GETC \<mapsto> returns handleGetC,
      OUT \<mapsto> returns handleOut,
      PUTS \<mapsto> handlePuts,
      IN \<mapsto> returns handleIn,
      PUTSP \<mapsto> handlePutsP,
      HALT \<mapsto> returns handleHalt]"

definition handleTrap :: handler where
  "handleTrap n c =
     (let c1 = c\<lparr>registers := (registers c)(RR7 := registers c RPC)\<rparr>;
          trap = instr c1 AND 0xFF
      in case trapTable trap of
           None \<Rightarrow> Some (Some (UnrecognizedTrap trap), c1)
         | Some handler \<Rightarrow> handler n c1)"

definition opTable :: "16 word \<rightharpoonup> handler" where
  "opTable =
     [OPADD \<mapsto> returns handleAdd,
      OPBR \<mapsto> returns handleBr,
      OPLD \<mapsto> returns handleLoad,
      OPST \<mapsto> returns handleStore,
      OPJSR \<mapsto> returns handleJumpSubroutine,
      OPAND \<mapsto> returns handleAnd,
      OPLDR \<mapsto> returns handleLoadR,
      OPSTR \<mapsto> returns handleStr,
      OPRTI \<mapsto> returns unhandledOpcode,
      OPNOT \<mapsto> returns handleNot,
      OPLDI \<mapsto> returns handleLoadIndirect,
      OPSTI \<mapsto> returns handleStoreIndirect,
      OPJMP \<mapsto> returns handleJmp,
      OPRES \<mapsto> returns unhandledOpcode,
      OPLEA \<mapsto> returns handleLoadEffectiveAddress,
      OPTRAP \<mapsto> handleTrap]"

definition Step :: "state \<Rightarrow> error option \<times> state" where
  "Step c =
     (case memoryRead c (registers c RPC) of
        ((ins, Some e), c1) \<Rightarrow> (Some e, c1)
      | ((ins, None), c1) \<Rightarrow>
          (let c2 = snd (incrProgramCounter c1)
           in (None, c2\<lparr>op := drop_bit 12 ins, instr := ins\<rparr>)))"

text \<open>The continuation that \<open>Run\<close> passes to \<open>Loop\<close>, applied to \<open>c.op\<close>.\<close>

definition loopCont :: handler where
  "loopCont n c =
     (case opTable (op c) of
        None \<Rightarrow> Some (Some (UnrecognizedOperation (op c)), c)
      | Some fn \<Rightarrow> fn n c)"

text \<open>
  \<open>for running { ... }\<close>, with fuel for the number of iterations (the counter
  \<open>exec\<close> of the source is never read and is left out). A trap handler started by
  an iteration gets the fuel of that iteration.
\<close>

fun loopFrom :: "nat \<Rightarrow> state \<Rightarrow> (error option \<times> state) option" where
  "loopFrom 0 c = (if running c then None else Some (None, c))"
| "loopFrom (Suc n) c =
     (if running c
      then (case Step c of
              (Some e, c1) \<Rightarrow> Some (Some e, c1)
            | (None, c1) \<Rightarrow>
                (case loopCont (Suc n) c1 of
                   None \<Rightarrow> None
                 | Some (Some e, c2) \<Rightarrow> Some (Some e, c2)
                 | Some (None, c2) \<Rightarrow> loopFrom n c2))
      else Some (None, c))"

definition Loop :: "nat \<Rightarrow> state \<Rightarrow> (error option \<times> state) option" where
  "Loop n c = loopFrom n (c\<lparr>running := True\<rparr>)"

definition Run :: "nat \<Rightarrow> state \<Rightarrow> (16 word \<Rightarrow> 16 word) \<Rightarrow> (error option \<times> state) option" where
  "Run n c mem = Loop n (c\<lparr>memory := mem\<rparr>)"

section \<open>States used as examples\<close>

text \<open>
  An input that delivers the bytes of a list and then fails, as a file does at its end.
\<close>

definition keys :: "8 word list \<Rightarrow> nat \<Rightarrow> 8 word option" where
  "keys bs k = (if k < length bs then Some (bs ! k) else None)"

text \<open>
  The machine that \<open>NewCPU\<close> returns, in an environment with the input \<open>inp\<close> and
  the write outcomes \<open>wok\<close>, before anything was read or written.
\<close>

definition initial :: "(nat \<Rightarrow> 8 word option) \<Rightarrow> (nat \<Rightarrow> bool) \<Rightarrow> state" where
  "initial inp wok =
     \<lparr>memory = memory NewCPU, registers = registers NewCPU, op = op NewCPU, instr = instr NewCPU,
      running = False, stdin_bytes = inp, reads = 0, write_ok = wok, writes = 0,
      stdout = [], stdin_echo = []\<rparr>"

text \<open>The initial machine after \<open>Step\<close> has decoded the instruction \<open>ins\<close>.\<close>

definition decoded :: "16 word \<Rightarrow> state" where
  "decoded ins = (initial (keys []) (\<lambda>k. True))\<lparr>op := drop_bit 12 ins, instr := ins\<rparr>"

text \<open>
  The initial machine inside \<open>Loop\<close>, about to fetch the instruction \<open>ins\<close> from
  address \<open>0x3000\<close>.
\<close>

definition fetching :: "16 word \<Rightarrow> state" where
  "fetching ins =
     (initial (keys []) (\<lambda>k. True))\<lparr>memory := (\<lambda>a. 0)(0x3000 := ins), running := True\<rparr>"

text \<open>
  The initial machine inside a trap handler, with the memory \<open>mem\<close>, the value \<open>r0\<close>
  in R0 and the input \<open>inp\<close>; every write succeeds.
\<close>

definition trapped :: "(16 word \<Rightarrow> 16 word) \<Rightarrow> 16 word \<Rightarrow> (nat \<Rightarrow> 8 word option) \<Rightarrow> state" where
  "trapped mem r0 inp =
     (initial inp (\<lambda>k. True))\<lparr>memory := mem, registers := (registers NewCPU)(RR0 := r0)\<rparr>"

section \<open>The scan for a zero word\<close>

text \<open>
  This definition follows the words of the specification, not a function of the source:
  the scan of the addresses upward from \<open>addr\<close>, wrapping modulo \<open>2 ^ 16\<close>, reaches a
  word equal to 0 with at most \<open>n\<close> reads, none of which fails. The reads are the
  machine's memory reads, so each pass over \<open>0xFE00\<close> takes a byte of the input and
  stores the keyboard status before the word is looked at.
\<close>

fun scan :: "nat \<Rightarrow> state \<Rightarrow> 16 word \<Rightarrow> bool" where
  "scan 0 c addr = False"
| "scan (Suc n) c addr =
     (case memoryRead c addr of
        ((w, Some e), c1) \<Rightarrow> False
      | ((w, None), c1) \<Rightarrow> w = 0 \<or> scan n c1 (addr + 1))"


section \<open>Sign extension\<close>

lemma test_bit_iff: "(drop_bit k x AND 1 \<noteq> 0) = bit x k" for x :: "16 word"
  by (simp add: and_one_eq bit_iff_odd_drop_bit mod_2_eq_odd)

lemma signExtend_mask:
  assumes "0 < n" "n \<le> 16"
  shows "signExtend (v AND mask n) (of_nat n) = signed_take_bit (n - 1) v"
proof -
  have un: "unat (of_nat n :: 16 word) = n"
    using assms by (simp add: unat_of_nat)
  have "(of_nat n :: 16 word) \<noteq> 0"
    using un assms by auto
  then have un1: "unat ((of_nat n :: 16 word) - 1) = n - 1"
    using un by (simp add: unat_minus_one)
  have tst: "(drop_bit (n - 1) (v AND mask n) AND 1 \<noteq> 0) = bit v (n - 1)"
    unfolding test_bit_iff using assms by (auto simp add: bit_simps)
  have ones: "(0xFFFF :: 16 word) = - 1"
    by simp
  have edge: "i = n - 1" if "i < n" "n - 1 \<le> i" for i
    using that by arith
  show ?thesis
  proof (cases "bit v (n - 1)")
    case True
    have "(v AND mask n) OR push_bit n (- 1) = signed_take_bit (n - 1) v"
    proof (rule bit_word_eqI)
      fix i assume "i < LENGTH(16)"
      then show "bit ((v AND mask n) OR push_bit n (- 1)) i = bit (signed_take_bit (n - 1) v) i"
        using assms True edge [of i] by (cases "i < n") (auto simp add: bit_simps min_def)
    qed
    then show ?thesis
      using True tst unfolding signExtend_def un un1 ones by simp
  next
    case False
    have "v AND mask n = signed_take_bit (n - 1) v"
    proof (rule bit_word_eqI)
      fix i assume "i < LENGTH(16)"
      then show "bit (v AND mask n) i = bit (signed_take_bit (n - 1) v) i"
        using assms False edge [of i] by (cases "i < n") (auto simp add: bit_simps min_def)
    qed
    then show ?thesis
      using False tst unfolding signExtend_def un un1 by simp
  qed
qed

lemma sint_signed_take_bit_word:
  assumes "k < 16"
  shows "sint (signed_take_bit k (v :: 16 word)) = (uint v + 2 ^ k) mod 2 ^ Suc k - 2 ^ k"
proof -
  have "sint (signed_take_bit k v) = signed_take_bit k (uint v)"
  proof (rule bit_eqI)
    fix i
    show "bit (sint (signed_take_bit k v)) i = bit (signed_take_bit k (uint v)) i"
      using assms by (auto simp add: bit_simps bit_sint_iff min_def not_le bit_uint_iff)
  qed
  then show ?thesis
    by (simp add: signed_take_bit_eq_take_bit_shift take_bit_eq_mod)
qed

text \<open>
  Claim C4. For every 16-bit value \<open>v\<close> and every \<open>n\<close> in \<open>{5, 6, 9, 11}\<close>,
  \<open>signExtend (v & (2^n - 1), n)\<close> is the 16-bit two's-complement sign extension of the low
  \<open>n\<close> bits of \<open>v\<close>: read as a signed number it is the value of the \<open>n\<close>-bit field
  read as a signed \<open>n\<close>-bit number; when bit \<open>n - 1\<close> of the masked field is set, all
  bits of the result from position \<open>n - 1\<close> up are set and the bits below are those of
  the field; otherwise the result is the masked field unchanged.
\<close>

theorem signExtend_arith:
  assumes "n \<in> {5, 6, 9, 11}"
  shows "sint (signExtend (v AND (2 ^ n - 1)) (of_nat n)) = (uint v + 2 ^ (n - 1)) mod 2 ^ n - 2 ^ (n - 1)
    \<and> (bit (v AND (2 ^ n - 1)) (n - 1) \<longrightarrow>
         (\<forall>i. n - 1 \<le> i \<and> i < 16 \<longrightarrow> bit (signExtend (v AND (2 ^ n - 1)) (of_nat n)) i)
         \<and> (\<forall>i < n - 1. bit (signExtend (v AND (2 ^ n - 1)) (of_nat n)) i = bit (v AND (2 ^ n - 1)) i))
    \<and> (\<not> bit (v AND (2 ^ n - 1)) (n - 1) \<longrightarrow>
         signExtend (v AND (2 ^ n - 1)) (of_nat n) = v AND (2 ^ n - 1))"
proof -
  have n: "0 < n" "n \<le> 16" "n - 1 < 16" "Suc (n - 1) = n"
    using assms by auto
  have eq: "signExtend (v AND (2 ^ n - 1)) (of_nat n) = signed_take_bit (n - 1) v"
    using signExtend_mask [OF n(1,2), of v] by (simp add: mask_eq_exp_minus_1)
  have fbit: "bit (v AND (2 ^ n - 1)) i = (bit v i \<and> i < n)" for i
    using n(2) by (auto simp add: bit_simps simp flip: mask_eq_exp_minus_1)
  have 1: "sint (signExtend (v AND (2 ^ n - 1)) (of_nat n)) = (uint v + 2 ^ (n - 1)) mod 2 ^ n - 2 ^ (n - 1)"
    unfolding eq using sint_signed_take_bit_word [OF n(3), of v] n(4) by simp
  have 2: "bit (signed_take_bit (n - 1) v) i" if "bit v (n - 1)" "n - 1 \<le> i" "i < 16" for i
    using that by (simp add: bit_simps min_def)
  have 3: "bit (signed_take_bit (n - 1) v) i = bit v i" if "i < n - 1" for i
    using that n by (auto simp add: bit_simps min_def)
  have 4: "signed_take_bit (n - 1) v = v AND (2 ^ n - 1)" if "\<not> bit v (n - 1)"
  proof (rule bit_word_eqI)
    fix i assume "i < LENGTH(16)"
    moreover have "i = n - 1" if "i < n" "n - 1 \<le> i"
      using that by arith
    ultimately show "bit (signed_take_bit (n - 1) v) i = bit (v AND (2 ^ n - 1)) i"
      using that n(1) unfolding fbit by (cases "i < n") (auto simp add: bit_simps min_def)
  qed
  show ?thesis
    using 1 2 3 4 n unfolding eq fbit by auto
qed

theorem signExtend_arith_witness:
  "(5 :: nat) \<in> {5, 6, 9, 11}
   \<and> sint (signExtend (0x1234 AND (2 ^ 5 - 1)) (of_nat 5)) = (uint (0x1234 :: 16 word) + 2 ^ (5 - 1)) mod 2 ^ 5 - 2 ^ (5 - 1)
   \<and> signExtend (0x1234 AND (2 ^ 5 - 1)) (of_nat 5) = 0xFFF4"
proof -
  have h: "(5 :: nat) \<in> {5, 6, 9, 11}"
    by simp
  show ?thesis
    using h signExtend_arith [OF h, of "0x1234"] by (simp add: signExtend_def)
qed

section \<open>Memory reads\<close>

lemma unat_ucast_byte: "unat (ucast (key :: 8 word) :: 16 word) = unat key"
proof -
  have "unat key < 2 ^ 8"
    using unsigned_less [of key, where 'a = nat] by simp
  then have "unat key < 2 ^ 16"
    by simp
  then show ?thesis
    by (simp add: unsigned_ucast_eq take_bit_nat_eq_self)
qed

lemma ucast_byte_eq_0: "((ucast (key :: 8 word) :: 16 word) = 0) = (key = 0)"
  using unat_ucast_byte [of key] by (metis unat_eq_zero unsigned_0 ucast_0)

text \<open>
  Claim C1. A read of any address other than the keyboard-status address \<open>0xFE00\<close>
  returns the stored word and leaves the whole state as it was. A read of \<open>0xFE00\<close>
  first takes one byte from the input (the count of reads grows by one): a byte other than
  \<open>0\<close> stores \<open>0x8000\<close>, the word with only bit 15 set, at \<open>0xFE00\<close> and the byte,
  zero-extended, at \<open>0xFE02\<close>; the byte \<open>0\<close> stores \<open>0\<close> at \<open>0xFE00\<close> and leaves
  \<open>0xFE02\<close> as it was. The word then found at \<open>0xFE00\<close> is returned.
\<close>

theorem memoryRead_keyboard:
  "(address \<noteq> MRKBSR \<longrightarrow> memoryRead c address = ((memory c address, None), c))
   \<and> (\<forall>key. stdin_bytes c (reads c) = Some key \<and> key \<noteq> 0 \<longrightarrow>
         memoryRead c MRKBSR =
           ((0x8000, None),
            c\<lparr>memory := (memory c)(0xFE00 := 0x8000, 0xFE02 := ucast key), reads := Suc (reads c)\<rparr>)
         \<and> unat (ucast key :: 16 word) = unat key)
   \<and> (stdin_bytes c (reads c) = Some 0 \<longrightarrow>
         memoryRead c MRKBSR =
           ((0, None), c\<lparr>memory := (memory c)(0xFE00 := 0), reads := Suc (reads c)\<rparr>))"
  by (auto simp add: memoryRead_def ReadByte_def ucast_byte_eq_0 MRKBSR_def MRKBDR_def unat_ucast_byte)

theorem memoryRead_keyboard_witness:
  "fst (memoryRead (initial (keys [0x41]) (\<lambda>k. True)) 0x3000) = (0, None)
   \<and> fst (memoryRead (initial (keys [0x41]) (\<lambda>k. True)) MRKBSR) = (0x8000, None)
   \<and> memory (snd (memoryRead (initial (keys [0x41]) (\<lambda>k. True)) MRKBSR)) MRKBSR = 0x8000
   \<and> memory (snd (memoryRead (initial (keys [0x41]) (\<lambda>k. True)) MRKBSR)) MRKBDR = 0x41
   \<and> reads (snd (memoryRead (initial (keys [0x41]) (\<lambda>k. True)) MRKBSR)) = 1
   \<and> fst (memoryRead (initial (keys [0]) (\<lambda>k. True)) MRKBSR) = (0, None)
   \<and> memory (snd (memoryRead (initial (keys [0]) (\<lambda>k. True)) MRKBSR)) MRKBDR = 0"
  using memoryRead_keyboard [of "0x3000" "initial (keys [0x41]) (\<lambda>k. True)"]
    memoryRead_keyboard [of "0x3000" "initial (keys [0]) (\<lambda>k. True)"]
  by (simp add: initial_def keys_def NewCPU_def lc3_consts)

section \<open>Condition flags\<close>

lemma reg_field_le: "x AND 0x7 \<le> 7" for x :: "16 word"
  by (rule word_and_le1)

lemma reg_field_in_range: "x AND 0x7 < RCOUNT" for x :: "16 word"
  unfolding RCOUNT_def by (rule le_less_trans [OF reg_field_le]) simp

lemma reg_field_neq [simp]: "x AND 0x7 \<noteq> RCOND" "x AND 0x7 \<noteq> RPC" for x :: "16 word"
  using reg_field_le [of x] by (auto simp add: RCOND_def RPC_def)



lemma updateFlags_other: "r' \<noteq> RCOND \<Longrightarrow> registers (updateFlags c r) r' = registers c r'"
  by (simp add: updateFlags_def)

lemma updateFlags_frame [simp]:
  "memory (updateFlags c r) = memory c" "instr (updateFlags c r) = instr c"
  "op (updateFlags c r) = op c" "running (updateFlags c r) = running c"
  by (simp_all add: updateFlags_def)

lemma memoryRead_frame:
  "registers (snd (memoryRead c a)) = registers c" "instr (snd (memoryRead c a)) = instr c"
  "op (snd (memoryRead c a)) = op c" "running (snd (memoryRead c a)) = running c"
  by (auto simp add: memoryRead_def ReadByte_def Let_def split: option.splits)



lemma opTable_simps:
  "opTable 0 = Some (returns handleBr)"
  "opTable 1 = Some (returns handleAdd)"
  "opTable 2 = Some (returns handleLoad)"
  "opTable 3 = Some (returns handleStore)"
  "opTable 4 = Some (returns handleJumpSubroutine)"
  "opTable 5 = Some (returns handleAnd)"
  "opTable 6 = Some (returns handleLoadR)"
  "opTable 7 = Some (returns handleStr)"
  "opTable 8 = Some (returns unhandledOpcode)"
  "opTable 9 = Some (returns handleNot)"
  "opTable 10 = Some (returns handleLoadIndirect)"
  "opTable 11 = Some (returns handleStoreIndirect)"
  "opTable 12 = Some (returns handleJmp)"
  "opTable 13 = Some (returns unhandledOpcode)"
  "opTable 14 = Some (returns handleLoadEffectiveAddress)"
  "opTable 15 = Some handleTrap"
  by (simp_all add: opTable_def lc3_consts)


lemma no_error_state:
  "fst (handleAdd c) = None" "fst (handleAnd c) = None" "fst (handleNot c) = None"
  "fst (handleLoadEffectiveAddress c) = None"
  by (simp_all add: handleAdd_def handleAnd_def handleNot_def handleLoadEffectiveAddress_def Let_def)





lemma nonload_outcome:
  "fst (handleAdd c) = None \<or> fst (handleAdd c) = Some ReadError \<and> registers (snd (handleAdd c)) = registers c"
  "fst (handleAnd c) = None \<or> fst (handleAnd c) = Some ReadError \<and> registers (snd (handleAnd c)) = registers c"
  "fst (handleNot c) = None \<or> fst (handleNot c) = Some ReadError \<and> registers (snd (handleNot c)) = registers c"
  "fst (handleLoadEffectiveAddress c) = None \<or> fst (handleLoadEffectiveAddress c) = Some ReadError \<and> registers (snd (handleLoadEffectiveAddress c)) = registers c"
  by (simp_all add: no_error_state)



lemma cond_frame:
  "registers (snd (handleBr c)) RCOND = registers c RCOND"
  "registers (snd (handleJmp c)) RCOND = registers c RCOND"
  "registers (snd (handleJumpSubroutine c)) RCOND = registers c RCOND"
  "registers (snd (handleStore c)) RCOND = registers c RCOND"
  "registers (snd (handleStoreIndirect c)) RCOND = registers c RCOND"
  "registers (snd (handleStr c)) RCOND = registers c RCOND"
  by (auto simp add: handleBr_def handleJmp_def handleJumpSubroutine_def handleStore_def
      handleStoreIndirect_def handleStr_def Let_def memoryWrite_def RCOND_def RPC_def RR7_def
      memoryRead_def ReadByte_def
      split: prod.splits option.splits)

text \<open>
  Claim C7. An instruction with opcode BR, JMP, JSR, ST, STI or STR always returns, with
  or without an error, and COND is afterwards what it was before.
\<close>

theorem cond_unchanged:
  assumes "op c \<in> {OPBR, OPJMP, OPJSR, OPST, OPSTI, OPSTR}"
  shows "\<exists>e c'. loopCont n c = Some (e, c') \<and> registers c' RCOND = registers c RCOND"
proof -
  have *: "\<exists>e c'. Some (h c) = Some (e, c') \<and> registers c' RCOND = registers c RCOND"
    if "registers (snd (h c)) RCOND = registers c RCOND" for h
    using that by (cases "h c") simp
  consider "op c = 0" | "op c = 12" | "op c = 4" | "op c = 3" | "op c = 11" | "op c = 7"
    using assms by (auto simp add: lc3_consts)
  then show ?thesis
  proof cases
    case 1 then show ?thesis
      using * [of handleBr] cond_frame(1) [of c] by (simp add: loopCont_def opTable_simps returns_def)
  next
    case 2 then show ?thesis
      using * [of handleJmp] cond_frame(2) [of c] by (simp add: loopCont_def opTable_simps returns_def)
  next
    case 3 then show ?thesis
      using * [of handleJumpSubroutine] cond_frame(3) [of c] by (simp add: loopCont_def opTable_simps returns_def)
  next
    case 4 then show ?thesis
      using * [of handleStore] cond_frame(4) [of c] by (simp add: loopCont_def opTable_simps returns_def)
  next
    case 5 then show ?thesis
      using * [of handleStoreIndirect] cond_frame(5) [of c] by (simp add: loopCont_def opTable_simps returns_def)
  next
    case 6 then show ?thesis
      using * [of handleStr] cond_frame(6) [of c] by (simp add: loopCont_def opTable_simps returns_def)
  qed
qed

text \<open>The witness stores with \<open>ST R1, #2\<close>, the instruction \<open>0x3202\<close>.\<close>

theorem cond_unchanged_witness:
  "op (decoded 0x3202) \<in> {OPBR, OPJMP, OPJSR, OPST, OPSTI, OPSTR}
   \<and> map_option fst (loopCont 0 (decoded 0x3202)) = Some None
   \<and> memory (snd (the (loopCont 0 (decoded 0x3202)))) 0x3002 = registers (decoded 0x3202) RR1
   \<and> registers (snd (the (loopCont 0 (decoded 0x3202)))) RCOND = FLZRO"
proof -
  have h: "op (decoded 0x3202) \<in> {OPBR, OPJMP, OPJSR, OPST, OPSTI, OPSTR}"
    by (simp add: decoded_def lc3_consts)
  have v: "loopCont 0 (decoded 0x3202) = Some (handleStore (decoded 0x3202))"
    by (simp add: loopCont_def decoded_def opTable_simps returns_def)
  show ?thesis
    using h cond_unchanged [OF h, of 0] unfolding v
    by (simp add: handleStore_def memoryWrite_def decoded_def initial_def NewCPU_def Let_def
        signExtend_def lc3_consts)
qed

section \<open>Jump to subroutine\<close>

text \<open>
  Claim C6. \<open>handleJumpSubroutine\<close> returns no error, and R7 afterwards holds the value
  that PC had when the handler began, whatever bit 11 of the instruction and whatever
  the base register.
\<close>

theorem jsr_links_pc:
  "fst (handleJumpSubroutine c) = None
   \<and> registers (snd (handleJumpSubroutine c)) RR7 = registers c RPC"
  by (simp add: handleJumpSubroutine_def Let_def RR7_def RPC_def)

section \<open>ADD and AND with an immediate operand\<close>

lemma imm5_eq: "signExtend (x AND 0x1F) 5 = signed_take_bit 4 x"
  using signExtend_mask [of 5 x] by (simp add: mask_eq_exp_minus_1)

text \<open>
  The instruction \<open>0x1061\<close> is \<open>ADD R0, R1, #1\<close>: its immediate bit is set, and its low
  three bits name R1, which is also the first source register. Changing the value of R1
  from 0 to 5, and nothing else, changes the result written to R0 from 1 to 6: the result
  is not independent of the register that the low three bits name.
\<close>

theorem immediate_mode_counterexample:
  "drop_bit 5 (instr (decoded 0x1061)) AND 0x1 = 1
   \<and> instr (decoded 0x1061) AND 0x7 = 1
   \<and> registers (snd (handleAdd (decoded 0x1061))) (drop_bit 9 (instr (decoded 0x1061)) AND 0x7) = 1
   \<and> registers
        (snd (handleAdd ((decoded 0x1061)\<lparr>registers :=
           (registers (decoded 0x1061))(instr (decoded 0x1061) AND 0x7 := 5)\<rparr>)))
        (drop_bit 9 (instr (decoded 0x1061)) AND 0x7) = 6"
  by (simp add: handleAdd_def decoded_def initial_def NewCPU_def Let_def signExtend_def
      updateFlags_def lc3_consts)

text \<open>
  Claim C5, amended. When bit 5 of the instruction is 1, ADD writes to the destination
  register the value of the first source register plus the 5-bit immediate, sign-extended,
  modulo \<open>2 ^ 16\<close>, and AND writes their bitwise conjunction. The result depends on the
  state through the instruction and the value of the first source register only: two
  states with the same instruction that agree on the first source register write the same
  result, whatever the other registers hold.
\<close>

theorem immediate_mode_result:
  assumes "drop_bit 5 (instr c) AND 0x1 = 1"
  shows "registers (snd (handleAdd c)) (drop_bit 9 (instr c) AND 0x7) =
           registers c (drop_bit 6 (instr c) AND 0x7) + signed_take_bit 4 (instr c)
       \<and> registers (snd (handleAnd c)) (drop_bit 9 (instr c) AND 0x7) =
           registers c (drop_bit 6 (instr c) AND 0x7) AND signed_take_bit 4 (instr c)
       \<and> (\<forall>c'. instr c' = instr c
                \<and> registers c' (drop_bit 6 (instr c) AND 0x7) = registers c (drop_bit 6 (instr c) AND 0x7)
             \<longrightarrow> registers (snd (handleAdd c')) (drop_bit 9 (instr c) AND 0x7) =
                   registers (snd (handleAdd c)) (drop_bit 9 (instr c) AND 0x7)
               \<and> registers (snd (handleAnd c')) (drop_bit 9 (instr c) AND 0x7) =
                   registers (snd (handleAnd c)) (drop_bit 9 (instr c) AND 0x7))"
proof -
  have add: "registers (snd (handleAdd d)) (drop_bit 9 (instr d) AND 0x7) =
           registers d (drop_bit 6 (instr d) AND 0x7) + signed_take_bit 4 (instr d)"
    if "instr d = instr c" for d
    using assms that by (simp add: handleAdd_def Let_def imm5_eq updateFlags_other)
  have "and": "registers (snd (handleAnd d)) (drop_bit 9 (instr d) AND 0x7) =
           registers d (drop_bit 6 (instr d) AND 0x7) AND signed_take_bit 4 (instr d)"
    if "instr d = instr c" for d
    using assms that by (simp add: handleAnd_def Let_def imm5_eq updateFlags_other)
  show ?thesis
    using add [of c] "and" [of c] add "and" by (metis (no_types, lifting))
qed

theorem immediate_mode_result_witness:
  "drop_bit 5 (instr (decoded 0x1061)) AND 0x1 = 1
   \<and> registers (snd (handleAdd (decoded 0x1061))) 0 = registers (decoded 0x1061) 1 + 1
   \<and> registers (snd (handleAnd (decoded 0x1061))) 0 = 0
   \<and> registers (snd (handleAdd ((decoded 0x1061)\<lparr>registers := (registers (decoded 0x1061))(RR3 := 9)\<rparr>))) 0 =
       registers (snd (handleAdd (decoded 0x1061))) 0"
proof -
  have h: "drop_bit 5 (instr (decoded 0x1061)) AND 0x1 = 1"
    by (simp add: decoded_def)
  have i: "instr (decoded 0x1061) = 0x1061"
    by (simp add: decoded_def)
  note t = immediate_mode_result [OF h, unfolded i]
  have 1: "registers (snd (handleAdd (decoded 0x1061))) 0 = registers (decoded 0x1061) 1 + 1"
    using conjunct1 [OF t] by simp
  have 2: "registers (snd (handleAnd (decoded 0x1061))) 0 = 0"
    using conjunct1 [OF conjunct2 [OF t]] by (simp add: decoded_def initial_def NewCPU_def lc3_consts)
  have 3: "registers (snd (handleAdd ((decoded 0x1061)\<lparr>registers := (registers (decoded 0x1061))(RR3 := 9)\<rparr>))) 0 =
       registers (snd (handleAdd (decoded 0x1061))) 0"
    using conjunct2 [OF conjunct2 [OF t], rule_format,
        of "(decoded 0x1061)\<lparr>registers := (registers (decoded 0x1061))(RR3 := 9)\<rparr>"]
    by (simp add: i RR3_def)
  show ?thesis
    using h 1 2 3 by simp
qed

section \<open>Fatal dispatch errors\<close>

text \<open>
  Claim C8. When an iteration of the loop fetches an instruction whose bits 15 to 12 are 8
  (RTI) or 13 (reserved), the loop returns the error \<open>UnhandledOpcode\<close> of that opcode at
  once, in the state that the fetch left, whatever the fuel and the state.
\<close>

theorem unhandled_opcode_fails:
  assumes "running c" and "Step c = (None, c1)"
    and "drop_bit 12 (instr c1) = 8 \<or> drop_bit 12 (instr c1) = 13"
  shows "loopFrom (Suc n) c = Some (Some (UnhandledOpcode (drop_bit 12 (instr c1))), c1)"
proof -
  have "op c1 = drop_bit 12 (instr c1)"
    using assms(2) by (auto simp add: Step_def Let_def split: prod.splits option.splits)
  then have "loopCont (Suc n) c1 = Some (Some (UnhandledOpcode (drop_bit 12 (instr c1))), c1)"
    using assms(3) by (auto simp add: loopCont_def opTable_simps returns_def unhandledOpcode_def)
  then show ?thesis
    using assms(1,2) by simp
qed

lemma Step_fetching:
  "Step (fetching ins) =
     (None, (fetching ins)\<lparr>registers := (registers (fetching ins))(RPC := 0x3001),
                            op := drop_bit 12 ins, instr := ins\<rparr>)"
  by (simp add: Step_def fetching_def initial_def NewCPU_def memoryRead_def incrProgramCounter_def
      Let_def lc3_consts)

theorem unhandled_opcode_fails_witness:
  "running (fetching 0x8000)
   \<and> fst (Step (fetching 0x8000)) = None
   \<and> drop_bit 12 (instr (snd (Step (fetching 0x8000)))) = (8 :: 16 word)
   \<and> map_option fst (loopFrom 1 (fetching 0x8000)) = Some (Some (UnhandledOpcode 8))
   \<and> registers (snd (the (loopFrom 1 (fetching 0x8000)))) RPC = 0x3001"
proof -
  have r: "running (fetching 0x8000)"
    by (simp add: fetching_def)
  have s: "Step (fetching 0x8000) = (None, snd (Step (fetching 0x8000)))"
    by (simp add: Step_fetching)
  have o: "drop_bit 12 (instr (snd (Step (fetching 0x8000)))) = (8 :: 16 word)"
    by (simp add: Step_fetching)
  show ?thesis
    using r o unhandled_opcode_fails [OF r s disjI1 [OF o], of 0]
    by (simp add: Step_fetching)
qed

lemma trapTable_None:
  "t \<notin> {0x20, 0x21, 0x22, 0x23, 0x24, 0x25} \<Longrightarrow> trapTable t = None"
  by (simp add: trapTable_def lc3_consts)

text \<open>
  Claim C9. When an iteration of the loop fetches a TRAP instruction whose low byte is
  none of \<open>0x20\<close> to \<open>0x25\<close>, the loop returns the error \<open>UnrecognizedTrap\<close> of that
  byte at once, and the state differs from the one that the fetch left in R7 only, which
  holds the value of PC: all other registers, the memory and the environment are the same.
\<close>

theorem unrecognized_trap_fails:
  assumes "running c" and "Step c = (None, c1)"
    and "drop_bit 12 (instr c1) = 15"
    and "instr c1 AND 0xFF \<notin> {0x20, 0x21, 0x22, 0x23, 0x24, 0x25}"
  shows "loopFrom (Suc n) c =
           Some (Some (UnrecognizedTrap (instr c1 AND 0xFF)),
                 c1\<lparr>registers := (registers c1)(RR7 := registers c1 RPC)\<rparr>)"
proof -
  have "op c1 = drop_bit 12 (instr c1)"
    using assms(2) by (auto simp add: Step_def Let_def split: prod.splits option.splits)
  then have "loopCont (Suc n) c1 = handleTrap (Suc n) c1"
    using assms(3) by (simp add: loopCont_def opTable_simps)
  moreover have "handleTrap (Suc n) c1 =
     Some (Some (UnrecognizedTrap (instr c1 AND 0xFF)),
           c1\<lparr>registers := (registers c1)(RR7 := registers c1 RPC)\<rparr>)"
    using trapTable_None [OF assms(4)] by (simp add: handleTrap_def Let_def)
  ultimately show ?thesis
    using assms(1,2) by simp
qed

theorem unrecognized_trap_fails_witness:
  "running (fetching 0xF099)
   \<and> fst (Step (fetching 0xF099)) = None
   \<and> map_option fst (loopFrom 1 (fetching 0xF099)) = Some (Some (UnrecognizedTrap 0x99))
   \<and> registers (snd (the (loopFrom 1 (fetching 0xF099)))) RR7 = 0x3001
   \<and> registers (snd (the (loopFrom 1 (fetching 0xF099)))) RR0 = 0
   \<and> memory (snd (the (loopFrom 1 (fetching 0xF099)))) = memory (fetching 0xF099)"
proof -
  have r: "running (fetching 0xF099)"
    by (simp add: fetching_def)
  have s: "Step (fetching 0xF099) = (None, snd (Step (fetching 0xF099)))"
    by (simp add: Step_fetching)
  have o: "drop_bit 12 (instr (snd (Step (fetching 0xF099)))) = (15 :: 16 word)"
    by (simp add: Step_fetching)
  have t: "instr (snd (Step (fetching 0xF099))) AND 0xFF \<notin> {0x20, 0x21, 0x22, 0x23, 0x24, 0x25}"
    by (simp add: Step_fetching)
  have s': "fst (Step (fetching 0xF099)) = None"
    by (simp add: Step_fetching)
  have e: "loopFrom 1 (fetching 0xF099) =
             Some (Some (UnrecognizedTrap 0x99),
                   (fetching 0xF099)\<lparr>registers := (registers (fetching 0xF099))(RPC := 0x3001, RR7 := 0x3001),
                                      op := 15, instr := 0xF099\<rparr>)"
    using unrecognized_trap_fails [OF r s o t, of 0] by (simp add: Step_fetching lc3_consts)
  show ?thesis
    unfolding e using r s' by (simp add: fetching_def initial_def NewCPU_def lc3_consts)
qed

section \<open>The PUTS trap\<close>

text \<open>
  The scenario of the specification: with R0 at the words \<open>0x0048, 0x0069, 0x0000\<close>,
  PUTS returns after three reads and has written the two bytes \<open>H\<close> and \<open>i\<close>.
\<close>

lemma handlePuts_Hi:
  "map_option fst (handlePuts (Suc (Suc (Suc 0)))
      (trapped ((\<lambda>a. 0)(0x4000 := 0x48, 0x4001 := 0x69)) 0x4000 (keys []))) = Some None
   \<and> stdout (snd (the (handlePuts (Suc (Suc (Suc 0)))
      (trapped ((\<lambda>a. 0)(0x4000 := 0x48, 0x4001 := 0x69)) 0x4000 (keys []))))) = [0x48, 0x69]"
  by (simp add: handlePuts_def trapped_def initial_def NewCPU_def memoryRead_def
      Printf_c_def Write_def AppendRune_def lc3_consts)

text \<open>
  Claim C2 says that PUTS writes exactly one byte for every nonzero word before the first
  zero word, the low byte of the word. The handler prints the word with \<open>%c\<close>, that is
  as a Unicode code point in UTF-8: with R0 at the words \<open>0x00E9, 0x0000\<close> it returns
  normally and has written the two bytes \<open>0xC3, 0xA9\<close>, not the one byte \<open>0xE9\<close>.
  \<open>handleOut\<close> and \<open>handlePutsP\<close> convert to a byte before writing.
\<close>

theorem handlePuts_non_ascii:
  "map_option fst (handlePuts (Suc (Suc 0))
      (trapped ((\<lambda>a. 0)(0x4000 := 0xE9)) 0x4000 (keys []))) = Some None
   \<and> stdout (snd (the (handlePuts (Suc (Suc 0))
      (trapped ((\<lambda>a. 0)(0x4000 := 0xE9)) 0x4000 (keys []))))) = [0xC3, 0xA9]"
  by (simp add: handlePuts_def trapped_def initial_def NewCPU_def memoryRead_def
      Printf_c_def Write_def AppendRune_def lc3_consts)

section \<open>Termination of PUTS and PUTSP\<close>

subsection \<open>The scan does not depend on the output\<close>

lemma memoryRead_cong:
  assumes "memory c = memory d" "stdin_bytes c = stdin_bytes d" "reads c = reads d"
  shows "fst (memoryRead c a) = fst (memoryRead d a)"
    and "memory (snd (memoryRead c a)) = memory (snd (memoryRead d a))"
    and "stdin_bytes (snd (memoryRead c a)) = stdin_bytes (snd (memoryRead d a))"
    and "reads (snd (memoryRead c a)) = reads (snd (memoryRead d a))"
  using assms by (auto simp add: memoryRead_def ReadByte_def Let_def split: option.splits)

lemma scan_cong:
  "memory c = memory d \<Longrightarrow> stdin_bytes c = stdin_bytes d \<Longrightarrow> reads c = reads d \<Longrightarrow>
     scan n c a = scan n d a"
proof (induction n arbitrary: c d a)
  case 0
  show ?case by simp
next
  case (Suc n)
  obtain w e c1 where c: "memoryRead c a = ((w, e), c1)"
    by (metis surj_pair)
  obtain w' e' d1 where d: "memoryRead d a = ((w', e'), d1)"
    by (metis surj_pair)
  from memoryRead_cong [OF Suc.prems, of a] c d
  have eq: "w' = w" "e' = e" "memory c1 = memory d1" "stdin_bytes c1 = stdin_bytes d1"
    "reads c1 = reads d1"
    by simp_all
  show ?case
    using Suc.IH [OF eq(3,4,5)] c d eq(1,2) by (cases e) simp_all
qed

lemma Printf_c_input:
  "memory (Printf_c w c) = memory c" "stdin_bytes (Printf_c w c) = stdin_bytes c"
  "reads (Printf_c w c) = reads c" "write_ok (Printf_c w c) = write_ok c"
  by (simp_all add: Printf_c_def Write_def)

lemma putsLoop_scan: "(\<exists>c'. putsLoop n c a = Some (None, c')) = scan n c a"
proof (induction n arbitrary: c a)
  case 0
  show ?case by simp
next
  case (Suc n)
  obtain w e c1 where c: "memoryRead c a = ((w, e), c1)"
    by (metis surj_pair)
  show ?case
  proof (cases e)
    case (Some x)
    then show ?thesis using c by simp
  next
    case None
    show ?thesis
    proof (cases "w = 0")
      case True
      then show ?thesis using c None by simp
    next
      case False
      have "scan n (Printf_c w c1) (a + 1) = scan n c1 (a + 1)"
        by (rule scan_cong) (simp_all add: Printf_c_input)
      then show ?thesis
        using c None False Suc.IH [of "Printf_c w c1" "a + 1"] by simp
    qed
  qed
qed

lemma Flush_ok:
  assumes "\<forall>k. write_ok c k" "err b = None"
  shows "\<exists>b' c'. Flush b c = (None, b', c') \<and> err b' = None \<and> memory c' = memory c
           \<and> stdin_bytes c' = stdin_bytes c \<and> reads c' = reads c \<and> write_ok c' = write_ok c"
  using assms by (auto simp add: Flush_def Write_def split: osfile.splits)

lemma WriteByte_ok:
  assumes "\<forall>k. write_ok c k" "err b = None"
  shows "\<exists>b' c'. WriteByte b x c = (None, b', c') \<and> err b' = None \<and> memory c' = memory c
           \<and> stdin_bytes c' = stdin_bytes c \<and> reads c' = reads c \<and> write_ok c' = write_ok c"
proof (cases "4096 \<le> length (buf b)")
  case True
  from Flush_ok [OF assms] obtain b' c' where "Flush b c = (None, b', c')" "err b' = None"
    "memory c' = memory c" "stdin_bytes c' = stdin_bytes c" "reads c' = reads c"
    "write_ok c' = write_ok c"
    by blast
  then show ?thesis
    using True assms(2) by (simp add: WriteByte_def)
next
  case False
  then show ?thesis
    using assms(2) by (simp add: WriteByte_def)
qed

lemma memoryRead_write_ok: "write_ok (snd (memoryRead c a)) = write_ok c"
  by (auto simp add: memoryRead_def ReadByte_def Let_def split: option.splits)

subsection \<open>The loops against the scan\<close>

lemma putsPLoop_scan:
  assumes "\<forall>k. write_ok c k" "err b = None"
  shows "(\<exists>c'. putsPLoop n b c a = Some (None, c')) = scan n c a"
  using assms
proof (induction n arbitrary: b c a)
  case 0
  show ?case by simp
next
  case (Suc n)
  obtain w e c1 where c: "memoryRead c a = ((w, e), c1)"
    by (metis surj_pair)
  have ok1: "\<forall>k. write_ok c1 k"
    using memoryRead_write_ok [of c a] c Suc.prems(1) by simp
  show ?case
  proof (cases e)
    case (Some x)
    then show ?thesis using c by simp
  next
    case None
    show ?thesis
    proof (cases "w = 0")
      case True
      from Flush_ok [OF ok1 Suc.prems(2)] obtain b' c' where "Flush b c1 = (None, b', c')"
        by blast
      then show ?thesis using c None True by simp
    next
      case False
      from WriteByte_ok [OF ok1 Suc.prems(2), of "ucast (w AND 0xFF)"]
      obtain b2 c2 where w1: "WriteByte b (ucast (w AND 0xFF)) c1 = (None, b2, c2)"
        and i2: "err b2 = None" "memory c2 = memory c1" "stdin_bytes c2 = stdin_bytes c1"
          "reads c2 = reads c1" "write_ok c2 = write_ok c1"
        by blast
      have ok2: "\<forall>k. write_ok c2 k"
        using ok1 i2(5) by simp
      show ?thesis
      proof (cases "drop_bit 8 w = 0")
        case True
        have "scan n c2 (a + 1) = scan n c1 (a + 1)"
          by (rule scan_cong) (simp_all add: i2)
        then show ?thesis
          using c None False w1 True Suc.IH [OF ok2 i2(1), of "a + 1"] by simp
      next
        case hi: False
        from WriteByte_ok [OF ok2 i2(1), of "ucast (drop_bit 8 w)"]
        obtain b3 c3 where w2: "WriteByte b2 (ucast (drop_bit 8 w)) c2 = (None, b3, c3)"
          and i3: "err b3 = None" "memory c3 = memory c2" "stdin_bytes c3 = stdin_bytes c2"
            "reads c3 = reads c2" "write_ok c3 = write_ok c2"
          by blast
        have ok3: "\<forall>k. write_ok c3 k"
          using ok2 i3(5) by simp
        have "scan n c3 (a + 1) = scan n c1 (a + 1)"
          by (rule scan_cong) (simp_all add: i2 i3)
        then show ?thesis
          using c None False w1 w2 hi Suc.IH [OF ok3 i3(1), of "a + 1"] by (simp add: Let_def)
      qed
    qed
  qed
qed

lemma memoryRead_nonzero:
  assumes "\<forall>a. memory c a \<noteq> 0" "\<forall>k. \<exists>b. stdin_bytes c k = Some b \<and> b \<noteq> 0"
  shows "\<exists>w c1. memoryRead c a = ((w, None), c1) \<and> w \<noteq> 0 \<and> (\<forall>a. memory c1 a \<noteq> 0)
           \<and> stdin_bytes c1 = stdin_bytes c \<and> write_ok c1 = write_ok c"
proof (cases "a = MRKBSR")
  case False
  then show ?thesis
    using assms(1) by (simp add: memoryRead_def)
next
  case True
  from assms(2) obtain b where b: "stdin_bytes c (reads c) = Some b" "b \<noteq> 0"
    by blast
  then have "(ucast b :: 16 word) \<noteq> 0"
    by (simp add: ucast_byte_eq_0)
  then show ?thesis
    using True b assms(1) by (simp add: memoryRead_def ReadByte_def lc3_consts)
qed

lemma putsLoop_diverges:
  assumes "\<forall>a. memory c a \<noteq> 0" "\<forall>k. \<exists>b. stdin_bytes c k = Some b \<and> b \<noteq> 0"
  shows "putsLoop n c a = None"
  using assms
proof (induction n arbitrary: c a)
  case 0
  show ?case by simp
next
  case (Suc n)
  from memoryRead_nonzero [OF Suc.prems, of a]
  obtain w c1 where r: "memoryRead c a = ((w, None), c1)" "w \<noteq> 0" "\<forall>a. memory c1 a \<noteq> 0"
    "stdin_bytes c1 = stdin_bytes c"
    by blast
  have "putsLoop n (Printf_c w c1) (a + 1) = None"
    by (rule Suc.IH) (simp_all add: Printf_c_input r Suc.prems(2))
  then show ?case
    using r by simp
qed

lemma putsPLoop_diverges:
  assumes "\<forall>a. memory c a \<noteq> 0" "\<forall>k. \<exists>b. stdin_bytes c k = Some b \<and> b \<noteq> 0"
    "\<forall>k. write_ok c k" "err b = None"
  shows "putsPLoop n b c a = None"
  using assms
proof (induction n arbitrary: b c a)
  case 0
  show ?case by simp
next
  case (Suc n)
  from memoryRead_nonzero [OF Suc.prems(1,2), of a]
  obtain w c1 where r: "memoryRead c a = ((w, None), c1)" "w \<noteq> 0" "\<forall>a. memory c1 a \<noteq> 0"
    "stdin_bytes c1 = stdin_bytes c" "write_ok c1 = write_ok c"
    by blast
  have ok1: "\<forall>k. write_ok c1 k"
    using r(5) Suc.prems(3) by simp
  from WriteByte_ok [OF ok1 Suc.prems(4), of "ucast (w AND 0xFF)"]
  obtain b2 c2 where w1: "WriteByte b (ucast (w AND 0xFF)) c1 = (None, b2, c2)"
    and i2: "err b2 = None" "memory c2 = memory c1" "stdin_bytes c2 = stdin_bytes c1"
      "write_ok c2 = write_ok c1"
    by blast
  have ok2: "\<forall>k. write_ok c2 k"
    using ok1 i2(4) by simp
  from WriteByte_ok [OF ok2 i2(1), of "ucast (drop_bit 8 w)"]
  obtain b3 c3 where w2: "WriteByte b2 (ucast (drop_bit 8 w)) c2 = (None, b3, c3)"
    and i3: "err b3 = None" "memory c3 = memory c2" "stdin_bytes c3 = stdin_bytes c2"
      "write_ok c3 = write_ok c2"
    by blast
  have n2: "putsPLoop n b2 c2 (a + 1) = None"
    by (rule Suc.IH) (simp_all add: i2 r Suc.prems ok1)
  have n3: "putsPLoop n b3 c3 (a + 1) = None"
    by (rule Suc.IH) (simp_all add: i2 i3 r Suc.prems ok1)
  show ?case
    using r w1 w2 n2 n3 by (simp add: Let_def)
qed

text \<open>
  Claim C10 says that the two handlers loop forever when no address holds a zero word and
  the input reads never fail. With every word of the memory equal to 1, R0 at
  \<open>0xFE00\<close> and an input that delivers the byte 0 at every read, no address holds a zero
  word and no read fails; the first read of the scan is the read of \<open>0xFE00\<close>, which
  takes the byte 0, stores 0 as the keyboard status and returns it, and both handlers
  return normally after that one read.
\<close>

theorem puts_zero_key_counterexample:
  "(\<forall>a. memory (trapped (\<lambda>a. 1) 0xFE00 (\<lambda>k. Some 0)) a \<noteq> 0)
   \<and> (\<forall>k. stdin_bytes (trapped (\<lambda>a. 1) 0xFE00 (\<lambda>k. Some 0)) k \<noteq> None)
   \<and> map_option fst (handlePuts (Suc 0) (trapped (\<lambda>a. 1) 0xFE00 (\<lambda>k. Some 0))) = Some None
   \<and> map_option fst (handlePutsP (Suc 0) (trapped (\<lambda>a. 1) 0xFE00 (\<lambda>k. Some 0))) = Some None"
  by (simp add: handlePuts_def handlePutsP_def trapped_def initial_def NewCPU_def memoryRead_def
      ReadByte_def Flush_def NewWriter_def lc3_consts)

text \<open>
  Claim C10, amended. PUTS returns normally exactly when the scan upward from the address
  in R0, wrapping modulo \<open>2 ^ 16\<close> and made with the machine's memory reads (each pass
  over \<open>0xFE00\<close> takes one input byte and stores the keyboard status), reads a word
  equal to 0 before an input read fails; so does PUTSP when no write fails. If no
  address holds a zero word and the input reads never fail and never deliver the byte 0,
  PUTS never returns, whatever the fuel, and neither does PUTSP when no write fails.
\<close>

theorem puts_termination:
  "((\<exists>n c'. handlePuts n c = Some (None, c')) \<longleftrightarrow> (\<exists>n. scan n c (registers c RR0)))
   \<and> ((\<forall>k. write_ok c k) \<longrightarrow>
        ((\<exists>n c'. handlePutsP n c = Some (None, c')) \<longleftrightarrow> (\<exists>n. scan n c (registers c RR0))))
   \<and> ((\<forall>a. memory c a \<noteq> 0) \<and> (\<forall>k. \<exists>b. stdin_bytes c k = Some b \<and> b \<noteq> 0) \<longrightarrow>
        (\<forall>n. handlePuts n c = None)
        \<and> ((\<forall>k. write_ok c k) \<longrightarrow> (\<forall>n. handlePutsP n c = None)))"
proof -
  have 1: "(\<exists>c'. handlePuts n c = Some (None, c')) = scan n c (registers c RR0)" for n
    unfolding handlePuts_def by (rule putsLoop_scan)
  have 2: "(\<exists>c'. handlePutsP n c = Some (None, c')) = scan n c (registers c RR0)"
    if "\<forall>k. write_ok c k" for n
    unfolding handlePutsP_def by (rule putsPLoop_scan [OF that]) (simp add: NewWriter_def)
  have 3: "handlePuts n c = None"
    if "\<forall>a. memory c a \<noteq> 0" "\<forall>k. \<exists>b. stdin_bytes c k = Some b \<and> b \<noteq> 0" for n
    unfolding handlePuts_def by (rule putsLoop_diverges [OF that])
  have 4: "handlePutsP n c = None"
    if "\<forall>a. memory c a \<noteq> 0" "\<forall>k. \<exists>b. stdin_bytes c k = Some b \<and> b \<noteq> 0" "\<forall>k. write_ok c k" for n
    unfolding handlePutsP_def by (rule putsPLoop_diverges [OF that]) (simp add: NewWriter_def)
  have a: "(\<exists>n c'. handlePuts n c = Some (None, c')) \<longleftrightarrow> (\<exists>n. scan n c (registers c RR0))"
    using 1 by blast
  have b: "(\<exists>n c'. handlePutsP n c = Some (None, c')) \<longleftrightarrow> (\<exists>n. scan n c (registers c RR0))"
    if "\<forall>k. write_ok c k"
    using 2 [OF that] by blast
  show ?thesis
    using a b 3 4 by blast
qed

theorem puts_termination_witness:
  "(\<exists>n c'. handlePuts n (trapped ((\<lambda>a. 0)(0x4000 := 0x48, 0x4001 := 0x69)) 0x4000 (keys [])) = Some (None, c'))
   \<and> (\<exists>n c'. handlePutsP n (trapped ((\<lambda>a. 0)(0x4000 := 0x48, 0x4001 := 0x69)) 0x4000 (keys [])) = Some (None, c'))
   \<and> handlePuts 70000 (trapped (\<lambda>a. 1) 0x4000 (\<lambda>k. Some 1)) = None
   \<and> handlePutsP 70000 (trapped (\<lambda>a. 1) 0x4000 (\<lambda>k. Some 1)) = None"
proof -
  let ?hi = "trapped ((\<lambda>a. 0)(0x4000 := 0x48, 0x4001 := 0x69)) 0x4000 (keys [])"
  let ?loop = "trapped (\<lambda>a. 1) 0x4000 (\<lambda>k. Some 1)"
  have s: "\<exists>n. scan n ?hi (registers ?hi RR0)"
    by (rule exI [where x = "Suc (Suc (Suc 0))"])
      (simp add: trapped_def initial_def NewCPU_def memoryRead_def lc3_consts)
  have w: "\<forall>k. write_ok ?hi k" "\<forall>k. write_ok ?loop k"
    by (simp_all add: trapped_def initial_def)
  have m: "(\<forall>a. memory ?loop a \<noteq> 0) \<and> (\<forall>k. \<exists>b. stdin_bytes ?loop k = Some b \<and> b \<noteq> 0)"
    by (simp add: trapped_def initial_def)
  note hi = puts_termination [of ?hi]
  note lp = puts_termination [of ?loop]
  have 1: "\<exists>n c'. handlePuts n ?hi = Some (None, c')"
    by (rule iffD2 [OF conjunct1 [OF hi] s])
  have 2: "\<exists>n c'. handlePutsP n ?hi = Some (None, c')"
    by (rule iffD2 [OF mp [OF conjunct1 [OF conjunct2 [OF hi]] w(1)] s])
  note d = mp [OF conjunct2 [OF conjunct2 [OF lp]] m]
  have 3: "handlePuts 70000 ?loop = None"
    by (rule spec [OF conjunct1 [OF d], where x = 70000])
  have 4: "handlePutsP 70000 ?loop = None"
    by (rule spec [OF mp [OF conjunct2 [OF d] w(2)], where x = 70000])
  show ?thesis
    using 1 2 3 4 by (intro conjI)
qed

end
